theory Spec2Isabelle
  imports Main
begin

section \<open>Data model\<close>

text \<open>
  The validators of \<^verbatim>\<open>custom_validators/iprange.py\<close> look at two kinds of stored
  records. Both carry a routing context \<^verbatim>\<open>vrf\<close>, a nullable foreign key: the key of the
  VRF row, or Python's \<^verbatim>\<open>None\<close> for the global table. An address value is an element
  of the linear order in which the backend compares addresses; it is an \<^typ>\<open>int\<close> here.
\<close>

record scoped =
  vrf :: "nat option"

record ipaddress = scoped +
  address :: int

record iprange = scoped +
  start_address :: int
  end_address :: int

section \<open>The backend\<close>

text \<open>
  The store holds the rows of both tables, each list in the order in which the backend
  returns rows. Every query that reaches the backend may raise: \<open>fault s n\<close> is the
  exception raised by the \<open>n\<close>-th query, if any, and \<open>queries s\<close> counts the queries
  executed so far.
\<close>

datatype exn = Exn string

record db =
  ipranges :: "iprange list"
  ipaddresses :: "ipaddress list"
  queries :: nat
  fault :: "nat \<Rightarrow> exn option"

text \<open>
  A query set is lazy: it names a table and accumulates a condition, and reaches the
  backend only when it is evaluated (\<^verbatim>\<open>exists()\<close>, \<^verbatim>\<open>first()\<close>, iteration).
\<close>

datatype 'a queryset = QuerySet (model: "db \<Rightarrow> 'a list") (cond: "'a \<Rightarrow> bool")

definition IPRange_objects :: "iprange queryset" where
  "IPRange_objects = QuerySet ipranges (\<lambda>_. True)"

definition IPAddress_objects :: "ipaddress queryset" where
  "IPAddress_objects = QuerySet ipaddresses (\<lambda>_. True)"

definition filter_qs :: "'a queryset \<Rightarrow> ('a \<Rightarrow> bool) \<Rightarrow> 'a queryset" where
  "filter_qs qs p = QuerySet (model qs) (\<lambda>x. cond qs x \<and> p x)"

definition rows :: "'a queryset \<Rightarrow> db \<Rightarrow> 'a list" where
  "rows qs s = filter (cond qs) (model qs s)"

definition execute :: "(db \<Rightarrow> 'a) \<Rightarrow> db \<Rightarrow> (exn + 'a) \<times> db" where
  "execute q s =
     (case fault s (queries s) of
        Some e \<Rightarrow> (Inl e, s\<lparr>queries := Suc (queries s)\<rparr>)
      | None \<Rightarrow> (Inr (q s), s\<lparr>queries := Suc (queries s)\<rparr>))"

definition exists_qs :: "'a queryset \<Rightarrow> db \<Rightarrow> (exn + bool) \<times> db" where
  "exists_qs qs = execute (\<lambda>s. rows qs s \<noteq> [])"

definition first_qs :: "'a queryset \<Rightarrow> db \<Rightarrow> (exn + 'a option) \<times> db" where
  "first_qs qs = execute (\<lambda>s. case rows qs s of [] \<Rightarrow> None | x # _ \<Rightarrow> Some x)"

definition iterate_qs :: "'a queryset \<Rightarrow> db \<Rightarrow> (exn + 'a list) \<times> db" where
  "iterate_qs qs = execute (rows qs)"

section \<open>The two lookups\<close>

text \<open>
  Each lookup is a \<^verbatim>\<open>try\<close> block followed by \<^verbatim>\<open>return None\<close>. The body of the
  block either raises (\<open>Inl e\<close>), returns a value (\<open>Inr (Some v)\<close>) or falls through
  to the statement after the block (\<open>Inr None\<close>). The handler is \<^verbatim>\<open>except: pass\<close>: it
  catches every exception and falls through as well. Both filters are lazy; the queries
  are \<^verbatim>\<open>exists()\<close>, then \<^verbatim>\<open>first()\<close> (lines 40 and 41 of the source) or the iteration
  of the list comprehension (lines 60 and 61).
\<close>

definition address_in_range_try :: "ipaddress \<Rightarrow> db \<Rightarrow> (exn + iprange option option) \<times> db" where
  "address_in_range_try ip s =
     (let including_ranges =
            filter_qs (filter_qs IPRange_objects (\<lambda>r. vrf r = vrf ip))
              (\<lambda>r. start_address r \<le> address ip \<and> end_address r \<ge> address ip)
      in case exists_qs including_ranges s of
           (Inl e, s1) \<Rightarrow> (Inl e, s1)
         | (Inr found, s1) \<Rightarrow>
             if found then
               (case first_qs including_ranges s1 of
                  (Inl e, s2) \<Rightarrow> (Inl e, s2)
                | (Inr r, s2) \<Rightarrow> (Inr (Some r), s2))
             else (Inr None, s1))"

definition address_in_range :: "ipaddress \<Rightarrow> db \<Rightarrow> iprange option \<times> db" where
  "address_in_range ip s =
     (case address_in_range_try ip s of
        (Inl e, s') \<Rightarrow> (None, s')  \<comment> \<open>\<^verbatim>\<open>except: pass\<close>, then \<^verbatim>\<open>return None\<close>\<close>
      | (Inr (Some r), s') \<Rightarrow> (r, s')  \<comment> \<open>\<^verbatim>\<open>return including_ranges.first()\<close>\<close>
      | (Inr None, s') \<Rightarrow> (None, s'))  \<comment> \<open>\<^verbatim>\<open>return None\<close>\<close>"

definition range_includes_address_try ::
  "(ipaddress \<Rightarrow> string) \<Rightarrow> iprange \<Rightarrow> db \<Rightarrow> (exn + string list option) \<times> db" where
  "range_includes_address_try str_ip rg s =
     (let start = start_address rg;
          end = end_address rg;
          included_addresses =
            filter_qs (filter_qs IPAddress_objects (\<lambda>a. vrf a = vrf rg))
              (\<lambda>a. address a \<ge> start \<and> address a \<le> end)
      in case exists_qs included_addresses s of
           (Inl e, s1) \<Rightarrow> (Inl e, s1)
         | (Inr found, s1) \<Rightarrow>
             if found then
               (case iterate_qs included_addresses s1 of
                  (Inl e, s2) \<Rightarrow> (Inl e, s2)
                | (Inr ips, s2) \<Rightarrow> (Inr (Some (map str_ip ips)), s2))
             else (Inr None, s1))"

definition range_includes_address ::
  "(ipaddress \<Rightarrow> string) \<Rightarrow> iprange \<Rightarrow> db \<Rightarrow> string list option \<times> db" where
  "range_includes_address str_ip rg s =
     (case range_includes_address_try str_ip rg s of
        (Inl e, s') \<Rightarrow> (None, s')  \<comment> \<open>\<^verbatim>\<open>except: pass\<close>, then \<^verbatim>\<open>return None\<close>\<close>
      | (Inr (Some l), s') \<Rightarrow> (Some l, s')  \<comment> \<open>the list of strings\<close>
      | (Inr None, s') \<Rightarrow> (None, s'))  \<comment> \<open>\<^verbatim>\<open>return None\<close>\<close>"

section \<open>Formatting\<close>

text \<open>
  An f-string puts a list of strings into the message through the list's \<^verbatim>\<open>repr\<close>:
  the \<^verbatim>\<open>repr\<close> of each string, separated by a comma and a space, in square brackets.
  The \<^verbatim>\<open>repr\<close> of a string is quoted with a single quote, or with a double quote when
  the string holds a single quote and no double quote, and escapes the quote, the
  backslash and the characters that are not printable. Characters are those of code
  points below 256.
\<close>

definition hexdigit :: "nat \<Rightarrow> char" where
  "hexdigit n = ''0123456789abcdef'' ! n"

definition isprintable :: "char \<Rightarrow> bool" where
  "isprintable c =
     (let n = (of_char c :: nat) in (32 \<le> n \<and> n < 127) \<or> (161 \<le> n \<and> n \<noteq> 173))"

definition repr_char :: "char \<Rightarrow> char \<Rightarrow> string" where
  "repr_char quote c =
     (if c = quote \<or> c = CHR 0x5C then [CHR 0x5C, c]
      else if c = CHR 0x09 then [CHR 0x5C, CHR ''t'']
      else if c = CHR 0x0A then [CHR 0x5C, CHR ''n'']
      else if c = CHR 0x0D then [CHR 0x5C, CHR ''r'']
      else if \<not> isprintable c then
        [CHR 0x5C, CHR ''x'', hexdigit (of_char c div 16), hexdigit (of_char c mod 16)]
      else [c])"

definition repr_str :: "string \<Rightarrow> string" where
  "repr_str s =
     (let quote = (if CHR 0x27 \<in> set s \<and> CHR 0x22 \<notin> set s then CHR 0x22 else CHR 0x27)
      in quote # concat (map (repr_char quote) s) @ [quote])"

fun join :: "string \<Rightarrow> string list \<Rightarrow> string" where
  "join sep [] = []"
| "join sep [x] = x"
| "join sep (x # y # ys) = x @ sep @ join sep (y # ys)"

definition repr_list :: "string list \<Rightarrow> string" where
  "repr_list xs = ''['' @ join '', '' (map repr_str xs) @ '']''"

section \<open>The validators\<close>

text \<open>
  \<^verbatim>\<open>self.fail(message, field=f)\<close> raises the framework's validation error for field
  \<open>f\<close>; a validator that returns passes. The string forms of the two record types
  (\<^verbatim>\<open>str(ip)\<close>, \<^verbatim>\<open>str(rg)\<close>) belong to the framework's record classes, which are not
  part of this repository: they are the parameters \<open>str_ip\<close> and \<open>str_rg\<close>. The second
  argument of \<^verbatim>\<open>validate\<close> is of any type.
\<close>

datatype validation_error = ValidationError (err_field: string) (err_message: string)

definition fail :: "string \<Rightarrow> string \<Rightarrow> validation_error + unit" where
  "fail msg fld = Inl (ValidationError fld msg)"

definition CheckAddressNotInRange_validate ::
  "(ipaddress \<Rightarrow> string) \<Rightarrow> (iprange \<Rightarrow> string) \<Rightarrow> ipaddress \<Rightarrow> 'i \<Rightarrow> db
     \<Rightarrow> (validation_error + unit) \<times> db" where
  "CheckAddressNotInRange_validate str_ip str_rg ip instance s =
     (case address_in_range ip s of
        (Some rg, s') \<Rightarrow>
          (fail (''IP address '' @ [CHR 0x27] @ str_ip ip @ [CHR 0x27] @ '' used in range ''
                   @ [CHR 0x27] @ str_rg rg @ [CHR 0x27]) ''address'', s')
      | (None, s') \<Rightarrow> (Inr (), s'))"

definition CheckRangeDoesNotIncludeAddress_validate ::
  "(ipaddress \<Rightarrow> string) \<Rightarrow> (iprange \<Rightarrow> string) \<Rightarrow> iprange \<Rightarrow> 'i \<Rightarrow> db
     \<Rightarrow> (validation_error + unit) \<times> db" where
  "CheckRangeDoesNotIncludeAddress_validate str_ip str_rg iprange instance s =
     (case range_includes_address str_ip iprange s of
        (Some addresses, s') \<Rightarrow>
          (let msg = ''Range '' @ [CHR 0x27] @ str_rg iprange @ [CHR 0x27]
                       @ '' includes existing addresses: '' @ repr_list addresses
           in (fail msg ''start_address'', s'))
      | (None, s') \<Rightarrow> (Inr (), s'))"

section \<open>The conflict relation of the specification\<close>

text \<open>
  Following the specification's words (data model and glossary): an address and a range
  conflict when they share the routing context and the address value lies in the
  inclusive interval from the range's start to its end. The lookups above are compared
  with this relation; they are not defined by it.
\<close>

definition conflicting :: "ipaddress \<Rightarrow> iprange \<Rightarrow> bool" where
  "conflicting a r \<longleftrightarrow>
     vrf a = vrf r \<and> start_address r \<le> address a \<and> address a \<le> end_address r"

text \<open>A computation raised when its result is an exception.\<close>

definition raises :: "(exn + 'a) \<times> db \<Rightarrow> bool" where
  "raises r = isl (fst r)"

section \<open>Sample records and stores\<close>

text \<open>
  Concrete inputs on which the validators are run below: IPv4 values, string forms (an
  address as its dotted quad, a range as start, a dash, end), addresses and ranges of
  the network 10.0.0.0 in a numbered routing context, and a store with records in two
  routing contexts whose \<open>k\<close>-th query may raise.
\<close>

definition ipv4 :: "nat \<Rightarrow> nat \<Rightarrow> nat \<Rightarrow> nat \<Rightarrow> int" where
  "ipv4 a b c d = int (((a * 256 + b) * 256 + c) * 256 + d)"

definition str_octet :: "nat \<Rightarrow> string" where
  "str_octet n =
     (if n < 10 then [''0123456789'' ! n]
      else if n < 100 then [''0123456789'' ! (n div 10), ''0123456789'' ! (n mod 10)]
      else [''0123456789'' ! (n div 100), ''0123456789'' ! (n div 10 mod 10),
            ''0123456789'' ! (n mod 10)])"

definition dotted_quad :: "int \<Rightarrow> string" where
  "dotted_quad v =
     (let n = nat v
      in str_octet (n div 16777216 mod 256) @ ''.'' @ str_octet (n div 65536 mod 256) @ ''.''
           @ str_octet (n div 256 mod 256) @ ''.'' @ str_octet (n mod 256))"

definition sample_str_ip :: "ipaddress \<Rightarrow> string" where
  "sample_str_ip a = dotted_quad (address a)"

definition sample_str_rg :: "iprange \<Rightarrow> string" where
  "sample_str_rg r = dotted_quad (start_address r) @ ''-'' @ dotted_quad (end_address r)"

definition host :: "nat \<Rightarrow> nat \<Rightarrow> ipaddress" where
  "host v d = \<lparr>vrf = Some v, address = ipv4 10 0 0 d\<rparr>"

definition span :: "nat \<Rightarrow> nat \<Rightarrow> nat \<Rightarrow> iprange" where
  "span v d e = \<lparr>vrf = Some v, start_address = ipv4 10 0 0 d, end_address = ipv4 10 0 0 e\<rparr>"

definition no_fault :: "nat \<Rightarrow> exn option" where
  "no_fault n = None"

definition fault_at :: "nat \<Rightarrow> nat \<Rightarrow> exn option" where
  "fault_at k n = (if n = k then Some (Exn ''OperationalError'') else None)"

definition sample_store :: "(nat \<Rightarrow> exn option) \<Rightarrow> db" where
  "sample_store f =
     \<lparr>ipranges = [span 1 10 20, span 1 15 30, span 2 40 50],
      ipaddresses = [host 1 5, host 1 7, host 2 9, host 1 60],
      queries = 0,
      fault = f\<rparr>"

section \<open>What the lookups compute\<close>

text \<open>
  The rows of both query sets are the stored records that conflict with the candidate,
  in query order. A lookup raises exactly when its first query raises, or when there is
  a conflict and its second query raises.
\<close>

lemma rows_ranges:
  "rows (filter_qs (filter_qs IPRange_objects P) Q) s = filter (\<lambda>r. P r \<and> Q r) (ipranges s)"
  by (simp add: rows_def filter_qs_def IPRange_objects_def)

lemma rows_addresses:
  "rows (filter_qs (filter_qs IPAddress_objects P) Q) s = filter (\<lambda>a. P a \<and> Q a) (ipaddresses s)"
  by (simp add: rows_def filter_qs_def IPAddress_objects_def)

lemma including_ranges_conflicting:
  "filter (\<lambda>r. vrf r = vrf ip \<and> start_address r \<le> address ip \<and> address ip \<le> end_address r) rs
     = filter (conflicting ip) rs"
  by (rule filter_cong) (auto simp: conflicting_def)

lemma included_addresses_conflicting:
  "filter (\<lambda>a. vrf a = vrf rg \<and> start_address rg \<le> address a \<and> address a \<le> end_address rg) as
     = filter (\<lambda>a. conflicting a rg) as"
  by (rule filter_cong) (auto simp: conflicting_def)

lemma address_in_range_try_eq:
  "address_in_range_try ip s =
     (case fault s (queries s) of
        Some e \<Rightarrow> (Inl e, s\<lparr>queries := Suc (queries s)\<rparr>)
      | None \<Rightarrow>
         (case filter (conflicting ip) (ipranges s) of
            [] \<Rightarrow> (Inr None, s\<lparr>queries := Suc (queries s)\<rparr>)
          | r # _ \<Rightarrow>
              (case fault s (Suc (queries s)) of
                 Some e \<Rightarrow> (Inl e, s\<lparr>queries := Suc (Suc (queries s))\<rparr>)
               | None \<Rightarrow> (Inr (Some (Some r)), s\<lparr>queries := Suc (Suc (queries s))\<rparr>))))"
  by (simp add: address_in_range_try_def exists_qs_def first_qs_def execute_def rows_ranges
      including_ranges_conflicting split: option.splits list.splits)

lemma range_includes_address_try_eq:
  "range_includes_address_try str_ip rg s =
     (case fault s (queries s) of
        Some e \<Rightarrow> (Inl e, s\<lparr>queries := Suc (queries s)\<rparr>)
      | None \<Rightarrow>
         (case filter (\<lambda>a. conflicting a rg) (ipaddresses s) of
            [] \<Rightarrow> (Inr None, s\<lparr>queries := Suc (queries s)\<rparr>)
          | a # as \<Rightarrow>
              (case fault s (Suc (queries s)) of
                 Some e \<Rightarrow> (Inl e, s\<lparr>queries := Suc (Suc (queries s))\<rparr>)
               | None \<Rightarrow> (Inr (Some (map str_ip (a # as))), s\<lparr>queries := Suc (Suc (queries s))\<rparr>))))"
  by (simp add: range_includes_address_try_def exists_qs_def iterate_qs_def execute_def rows_addresses
      included_addresses_conflicting split: option.splits list.splits)

lemma address_in_range_try_raises:
  "raises (address_in_range_try ip s) \<longleftrightarrow>
     fault s (queries s) \<noteq> None \<or>
     filter (conflicting ip) (ipranges s) \<noteq> [] \<and> fault s (Suc (queries s)) \<noteq> None"
  by (auto simp: raises_def address_in_range_try_eq split: option.splits list.splits)

lemma range_includes_address_try_raises:
  "raises (range_includes_address_try str_ip rg s) \<longleftrightarrow>
     fault s (queries s) \<noteq> None \<or>
     filter (\<lambda>a. conflicting a rg) (ipaddresses s) \<noteq> [] \<and> fault s (Suc (queries s)) \<noteq> None"
  by (auto simp: raises_def range_includes_address_try_eq split: option.splits list.splits)

lemma address_in_range_raised:
  "raises (address_in_range_try ip s) \<Longrightarrow> fst (address_in_range ip s) = None"
  by (cases "address_in_range_try ip s") (auto simp: raises_def address_in_range_def split: sum.splits)

lemma range_includes_address_raised:
  "raises (range_includes_address_try str_ip rg s) \<Longrightarrow> fst (range_includes_address str_ip rg s) = None"
  by (cases "range_includes_address_try str_ip rg s")
     (auto simp: raises_def range_includes_address_def split: sum.splits)

lemma address_in_range_not_raised:
  "\<not> raises (address_in_range_try ip s) \<Longrightarrow>
   fst (address_in_range ip s) =
     (case filter (conflicting ip) (ipranges s) of [] \<Rightarrow> None | r # _ \<Rightarrow> Some r)"
  by (simp add: raises_def address_in_range_def address_in_range_try_eq
      split: option.splits list.splits)

lemma range_includes_address_not_raised:
  "\<not> raises (range_includes_address_try str_ip rg s) \<Longrightarrow>
   fst (range_includes_address str_ip rg s) =
     (case filter (\<lambda>a. conflicting a rg) (ipaddresses s) of
        [] \<Rightarrow> None | a # as \<Rightarrow> Some (map str_ip (a # as)))"
  by (simp add: raises_def range_includes_address_def range_includes_address_try_eq
      split: option.splits list.splits)

lemma address_in_range_Some:
  "fst (address_in_range ip s) = Some r \<Longrightarrow>
   \<exists>rest. filter (conflicting ip) (ipranges s) = r # rest"
  by (simp add: address_in_range_def address_in_range_try_eq split: option.splits list.splits)

lemma range_includes_address_Some:
  "fst (range_includes_address str_ip rg s) = Some l \<Longrightarrow>
   filter (\<lambda>a. conflicting a rg) (ipaddresses s) \<noteq> [] \<and>
   l = map str_ip (filter (\<lambda>a. conflicting a rg) (ipaddresses s))"
  by (simp add: range_includes_address_def range_includes_address_try_eq
      split: option.splits list.splits)

lemma address_validate_eq:
  "fst (CheckAddressNotInRange_validate str_ip str_rg ip inst s) =
     (case fst (address_in_range ip s) of
        None \<Rightarrow> Inr ()
      | Some rg \<Rightarrow>
          Inl (ValidationError ''address''
                 (''IP address '' @ [CHR 0x27] @ str_ip ip @ [CHR 0x27] @ '' used in range ''
                    @ [CHR 0x27] @ str_rg rg @ [CHR 0x27])))"
  by (cases "address_in_range ip s")
     (simp add: CheckAddressNotInRange_validate_def fail_def split: option.splits)

lemma range_validate_eq:
  "fst (CheckRangeDoesNotIncludeAddress_validate str_ip str_rg rg inst s) =
     (case fst (range_includes_address str_ip rg s) of
        None \<Rightarrow> Inr ()
      | Some addresses \<Rightarrow>
          Inl (ValidationError ''start_address''
                 (''Range '' @ [CHR 0x27] @ str_rg rg @ [CHR 0x27]
                    @ '' includes existing addresses: '' @ repr_list addresses)))"
  by (cases "range_includes_address str_ip rg s")
     (simp add: CheckRangeDoesNotIncludeAddress_validate_def fail_def split: option.splits)

lemma address_in_range_store:
  "\<exists>n. snd (address_in_range ip s) = s\<lparr>queries := n\<rparr>"
  by (auto simp: address_in_range_def address_in_range_try_eq split: option.splits list.splits)

lemma range_includes_address_store:
  "\<exists>n. snd (range_includes_address str_ip rg s) = s\<lparr>queries := n\<rparr>"
  by (auto simp: range_includes_address_def range_includes_address_try_eq
      split: option.splits list.splits)

lemma address_validate_store:
  "snd (CheckAddressNotInRange_validate str_ip str_rg ip inst s) = snd (address_in_range ip s)"
  by (cases "address_in_range ip s")
     (simp add: CheckAddressNotInRange_validate_def split: option.splits)

lemma range_validate_store:
  "snd (CheckRangeDoesNotIncludeAddress_validate str_ip str_rg rg inst s) =
     snd (range_includes_address str_ip rg s)"
  by (cases "range_includes_address str_ip rg s")
     (simp add: CheckRangeDoesNotIncludeAddress_validate_def split: option.splits)

lemmas sample_defs =
  sample_store_def host_def span_def ipv4_def no_fault_def fault_at_def

lemmas lookup_defs =
  address_in_range_def address_in_range_try_def range_includes_address_def
  range_includes_address_try_def exists_qs_def first_qs_def iterate_qs_def execute_def
  rows_def filter_qs_def IPRange_objects_def IPAddress_objects_def

lemmas str_defs =
  sample_str_ip_def sample_str_rg_def dotted_quad_def str_octet_def

lemma find_filter:
  "find P xs = (case filter P xs of [] \<Rightarrow> None | x # _ \<Rightarrow> Some x)"
  by (induction xs) simp_all

lemma filter_empty_conflicting_ranges:
  "filter (conflicting ip) rs = [] \<longleftrightarrow>
     \<not> (\<exists>r \<in> set rs. vrf r = vrf ip \<and> start_address r \<le> address ip \<and> address ip \<le> end_address r)"
  by (auto simp: filter_empty_conv conflicting_def)

lemma filter_empty_conflicting_addresses:
  "filter (\<lambda>a. conflicting a rg) as = [] \<longleftrightarrow>
     \<not> (\<exists>a \<in> set as. vrf a = vrf rg \<and> start_address rg \<le> address a \<and> address a \<le> end_address rg)"
  by (auto simp: filter_empty_conv conflicting_def)

lemmas repr_defs = repr_list_def repr_str_def repr_char_def isprintable_def hexdigit_def Let_def

lemma sample_repr:
  "repr_list [''10.0.0.5'', ''10.0.0.7''] =
     ''['' @ [CHR 0x27] @ ''10.0.0.5'' @ [CHR 0x27] @ '', '' @ [CHR 0x27] @ ''10.0.0.7''
       @ [CHR 0x27] @ '']''"
  by (simp add: repr_defs)

lemma address_in_range_fst:
  "fst (address_in_range ip s) =
     (case fault s (queries s) of
        Some e \<Rightarrow> None
      | None \<Rightarrow>
          (case filter (conflicting ip) (ipranges s) of
             [] \<Rightarrow> None
           | r # _ \<Rightarrow> (case fault s (Suc (queries s)) of Some e \<Rightarrow> None | None \<Rightarrow> Some r)))"
  by (simp add: address_in_range_def address_in_range_try_eq split: option.splits list.splits)

lemma range_includes_address_fst:
  "fst (range_includes_address str_ip rg s) =
     (case fault s (queries s) of
        Some e \<Rightarrow> None
      | None \<Rightarrow>
          (case filter (\<lambda>a. conflicting a rg) (ipaddresses s) of
             [] \<Rightarrow> None
           | a # as \<Rightarrow>
               (case fault s (Suc (queries s)) of
                  Some e \<Rightarrow> None
                | None \<Rightarrow> Some (map str_ip (a # as)))))"
  by (simp add: range_includes_address_def range_includes_address_try_eq
      split: option.splits list.splits)

lemma address_validate_irrelevant_range:
  "\<not> conflicting ip r \<Longrightarrow>
   fst (CheckAddressNotInRange_validate str_ip str_rg ip inst (s\<lparr>ipranges := xs @ r # ys\<rparr>)) =
   fst (CheckAddressNotInRange_validate str_ip str_rg ip inst (s\<lparr>ipranges := xs @ ys\<rparr>))"
  by (simp add: address_validate_eq address_in_range_fst split: option.splits list.splits)

lemma range_validate_irrelevant_address:
  "\<not> conflicting a rg \<Longrightarrow>
   fst (CheckRangeDoesNotIncludeAddress_validate str_ip str_rg rg inst
          (s\<lparr>ipaddresses := xs @ a # ys\<rparr>)) =
   fst (CheckRangeDoesNotIncludeAddress_validate str_ip str_rg rg inst
          (s\<lparr>ipaddresses := xs @ ys\<rparr>))"
  by (simp add: range_validate_eq range_includes_address_fst split: option.splits list.splits)

lemma address_validate_no_conflict:
  "filter (conflicting ip) (ipranges s) = [] \<Longrightarrow>
   fst (CheckAddressNotInRange_validate str_ip str_rg ip inst s) = Inr ()"
  by (simp add: address_validate_eq address_in_range_fst split: option.splits)

lemma range_validate_no_conflict:
  "filter (\<lambda>a. conflicting a rg) (ipaddresses s) = [] \<Longrightarrow>
   fst (CheckRangeDoesNotIncludeAddress_validate str_ip str_rg rg inst s) = Inr ()"
  by (simp add: range_validate_eq range_includes_address_fst split: option.splits)

lemma address_validate_fails:
  "fst (CheckAddressNotInRange_validate str_ip str_rg ip inst s) = Inl err \<Longrightarrow>
   \<exists>rg rest. filter (conflicting ip) (ipranges s) = rg # rest \<and>
     err = ValidationError ''address''
             (''IP address '' @ [CHR 0x27] @ str_ip ip @ [CHR 0x27] @ '' used in range ''
                @ [CHR 0x27] @ str_rg rg @ [CHR 0x27])"
  using address_in_range_Some [of ip s]
  by (auto simp: address_validate_eq split: option.splits)

lemma range_validate_fails:
  "fst (CheckRangeDoesNotIncludeAddress_validate str_ip str_rg rg inst s) = Inl err \<Longrightarrow>
   filter (\<lambda>a. conflicting a rg) (ipaddresses s) \<noteq> [] \<and>
   err = ValidationError ''start_address''
           (''Range '' @ [CHR 0x27] @ str_rg rg @ [CHR 0x27] @ '' includes existing addresses: ''
              @ repr_list (map str_ip (filter (\<lambda>a. conflicting a rg) (ipaddresses s))))"
  using range_includes_address_Some [of str_ip rg s]
  by (auto simp: range_validate_eq split: option.splits)

lemma address_validate_not_raised:
  "\<not> raises (address_in_range_try ip s) \<Longrightarrow>
   filter (conflicting ip) (ipranges s) = rg # rest \<Longrightarrow>
   fst (CheckAddressNotInRange_validate str_ip str_rg ip inst s) =
     Inl (ValidationError ''address''
            (''IP address '' @ [CHR 0x27] @ str_ip ip @ [CHR 0x27] @ '' used in range ''
               @ [CHR 0x27] @ str_rg rg @ [CHR 0x27]))"
  by (simp add: address_validate_eq address_in_range_not_raised)

lemma range_validate_not_raised:
  "\<not> raises (range_includes_address_try str_ip rg s) \<Longrightarrow>
   filter (\<lambda>a. conflicting a rg) (ipaddresses s) = a # as \<Longrightarrow>
   fst (CheckRangeDoesNotIncludeAddress_validate str_ip str_rg rg inst s) =
     Inl (ValidationError ''start_address''
            (''Range '' @ [CHR 0x27] @ str_rg rg @ [CHR 0x27] @ '' includes existing addresses: ''
               @ repr_list (map str_ip (a # as))))"
  by (simp add: range_validate_eq range_includes_address_not_raised)

lemma not_conflicting_adjacent:
  "address a = start_address r - 1 \<or> address a = end_address r + 1 \<Longrightarrow> \<not> conflicting a r"
  by (auto simp: conflicting_def)

lemma conflicting_bound:
  "vrf a = vrf r \<Longrightarrow> start_address r \<le> end_address r \<Longrightarrow>
   address a = start_address r \<or> address a = end_address r \<Longrightarrow> conflicting a r"
  by (auto simp: conflicting_def)

lemma address_validate_singleton:
  "\<not> conflicting ip r \<Longrightarrow>
   fst (CheckAddressNotInRange_validate str_ip str_rg ip inst (s\<lparr>ipranges := [r]\<rparr>)) = Inr ()"
  by (rule address_validate_no_conflict) simp

lemma range_validate_singleton:
  "\<not> conflicting a rg \<Longrightarrow>
   fst (CheckRangeDoesNotIncludeAddress_validate str_ip str_rg rg inst (s\<lparr>ipaddresses := [a]\<rparr>))
     = Inr ()"
  by (rule range_validate_no_conflict) simp

lemma address_validate_conflict_fails:
  assumes "r \<in> set (ipranges s)" and "conflicting ip r"
    and "\<not> raises (address_in_range_try ip s)"
  shows "\<exists>m. fst (CheckAddressNotInRange_validate str_ip str_rg ip inst s) =
           Inl (ValidationError ''address'' m)"
proof -
  from assms(1,2) have "filter (conflicting ip) (ipranges s) \<noteq> []"
    by (auto simp: filter_empty_conv)
  then obtain rg rest where "filter (conflicting ip) (ipranges s) = rg # rest"
    by (cases "filter (conflicting ip) (ipranges s)") auto
  from address_validate_not_raised [OF assms(3) this, of str_ip str_rg inst] show ?thesis
    by auto
qed

lemma range_validate_conflict_fails:
  assumes "a \<in> set (ipaddresses s)" and "conflicting a rg"
    and "\<not> raises (range_includes_address_try str_ip rg s)"
  shows "\<exists>m. fst (CheckRangeDoesNotIncludeAddress_validate str_ip str_rg rg inst s) =
           Inl (ValidationError ''start_address'' m)"
proof -
  from assms(1,2) have "filter (\<lambda>a. conflicting a rg) (ipaddresses s) \<noteq> []"
    by (auto simp: filter_empty_conv)
  then obtain b bs where "filter (\<lambda>a. conflicting a rg) (ipaddresses s) = b # bs"
    by (cases "filter (\<lambda>a. conflicting a rg) (ipaddresses s)") auto
  from range_validate_not_raised [OF assms(3) this, of str_rg inst] show ?thesis
    by auto
qed

lemma not_conflicting_other_vrf:
  "vrf r \<noteq> vrf a \<Longrightarrow> \<not> conflicting a r"
  by (auto simp: conflicting_def)

section \<open>The claims\<close>

subsection \<open>C1: the address check fails exactly on a conflict, when the lookup does not raise\<close>

text \<open>
  Claim C1, amended. When the lookup raises no exception: if some stored range in the
  candidate address's \<^verbatim>\<open>vrf\<close> has its start at most the candidate address and its end
  at least the candidate address, \<^verbatim>\<open>CheckAddressNotInRange.validate\<close> fails for the field
  \<^verbatim>\<open>address\<close>, with the message that quotes the string forms of the candidate and of
  the first such range in query order; if there is no such range, it returns without
  failing.
\<close>

theorem address_check_outcome:
  assumes "\<not> raises (address_in_range_try ip s)"
  shows "((\<exists>r \<in> set (ipranges s). vrf r = vrf ip \<and>
              start_address r \<le> address ip \<and> address ip \<le> end_address r) \<longrightarrow>
            (\<exists>rg. find (conflicting ip) (ipranges s) = Some rg \<and>
               fst (CheckAddressNotInRange_validate str_ip str_rg ip inst s) =
                 Inl (ValidationError ''address''
                        (''IP address '' @ [CHR 0x27] @ str_ip ip @ [CHR 0x27]
                           @ '' used in range '' @ [CHR 0x27] @ str_rg rg @ [CHR 0x27])))) \<and>
         (\<not> (\<exists>r \<in> set (ipranges s). vrf r = vrf ip \<and>
              start_address r \<le> address ip \<and> address ip \<le> end_address r) \<longrightarrow>
            fst (CheckAddressNotInRange_validate str_ip str_rg ip inst s) = Inr ())"
proof (cases "filter (conflicting ip) (ipranges s)")
  case Nil
  then have "fst (address_in_range ip s) = None"
    using assms by (simp add: address_in_range_not_raised)
  with Nil show ?thesis
    by (simp add: address_validate_eq filter_empty_conflicting_ranges)
next
  case (Cons rg rest)
  then have "fst (address_in_range ip s) = Some rg"
    using assms by (simp add: address_in_range_not_raised)
  moreover from Cons have "find (conflicting ip) (ipranges s) = Some rg"
    by (simp add: find_filter)
  moreover from Cons have "filter (conflicting ip) (ipranges s) \<noteq> []"
    by simp
  ultimately show ?thesis
    by (simp add: address_validate_eq filter_empty_conflicting_ranges)
qed

theorem address_check_outcome_witness:
  "\<not> raises (address_in_range_try (host 1 15) (sample_store no_fault)) \<and>
   find (conflicting (host 1 15)) (ipranges (sample_store no_fault)) = Some (span 1 10 20) \<and>
   fst (CheckAddressNotInRange_validate sample_str_ip sample_str_rg (host 1 15) ()
          (sample_store no_fault)) =
     Inl (ValidationError ''address''
            (''IP address '' @ [CHR 0x27] @ ''10.0.0.15'' @ [CHR 0x27] @ '' used in range ''
               @ [CHR 0x27] @ ''10.0.0.10-10.0.0.20'' @ [CHR 0x27])) \<and>
   \<not> raises (address_in_range_try (host 1 9) (sample_store no_fault)) \<and>
   fst (CheckAddressNotInRange_validate sample_str_ip sample_str_rg (host 1 9) ()
          (sample_store no_fault)) = Inr ()"
proof -
  have n15: "\<not> raises (address_in_range_try (host 1 15) (sample_store no_fault))"
    by (simp add: raises_def lookup_defs sample_defs)
  have n9: "\<not> raises (address_in_range_try (host 1 9) (sample_store no_fault))"
    by (simp add: raises_def lookup_defs sample_defs)
  have f15: "find (conflicting (host 1 15)) (ipranges (sample_store no_fault)) = Some (span 1 10 20)"
    by (simp add: conflicting_def sample_defs)
  have e15: "\<exists>r \<in> set (ipranges (sample_store no_fault)). vrf r = vrf (host 1 15) \<and>
       start_address r \<le> address (host 1 15) \<and> address (host 1 15) \<le> end_address r"
    by (simp add: sample_defs)
  have e9: "\<not> (\<exists>r \<in> set (ipranges (sample_store no_fault)). vrf r = vrf (host 1 9) \<and>
       start_address r \<le> address (host 1 9) \<and> address (host 1 9) \<le> end_address r)"
    by (simp add: sample_defs)
  have s15: "sample_str_ip (host 1 15) = ''10.0.0.15''"
    by (simp add: str_defs sample_defs)
  have s1020: "sample_str_rg (span 1 10 20) = ''10.0.0.10-10.0.0.20''"
    by (simp add: str_defs sample_defs)
  from address_check_outcome [OF n15, of sample_str_ip sample_str_rg "()"] e15 f15 s15 s1020
  have "fst (CheckAddressNotInRange_validate sample_str_ip sample_str_rg (host 1 15) ()
          (sample_store no_fault)) =
     Inl (ValidationError ''address''
            (''IP address '' @ [CHR 0x27] @ ''10.0.0.15'' @ [CHR 0x27] @ '' used in range ''
               @ [CHR 0x27] @ ''10.0.0.10-10.0.0.20'' @ [CHR 0x27]))"
    by auto
  moreover from address_check_outcome [OF n9, of sample_str_ip sample_str_rg "()"] e9
  have "fst (CheckAddressNotInRange_validate sample_str_ip sample_str_rg (host 1 9) ()
          (sample_store no_fault)) = Inr ()"
    by blast
  ultimately show ?thesis
    using n15 n9 f15 by blast
qed

text \<open>
  As first stated, without the condition on the lookup, the claim is false: the store
  below holds a range that contains the candidate address, in its \<^verbatim>\<open>vrf\<close>, the first
  query raises, and the validator passes.
\<close>

theorem address_check_backend_error_counterexample:
  "span 1 10 20 \<in> set (ipranges (sample_store (fault_at 0))) \<and>
   vrf (span 1 10 20) = vrf (host 1 15) \<and>
   start_address (span 1 10 20) \<le> address (host 1 15) \<and>
   address (host 1 15) \<le> end_address (span 1 10 20) \<and>
   fst (CheckAddressNotInRange_validate sample_str_ip sample_str_rg (host 1 15) ()
          (sample_store (fault_at 0))) = Inr ()"
  by (simp add: CheckAddressNotInRange_validate_def lookup_defs sample_defs)

subsection \<open>C2: the range check fails exactly on a conflict, when the lookup does not raise\<close>

text \<open>
  Claim C2, amended. When the lookup raises no exception: if some stored address in the
  candidate range's \<^verbatim>\<open>vrf\<close> has a value from the range's start to its end, both
  included, \<^verbatim>\<open>CheckRangeDoesNotIncludeAddress.validate\<close> fails for the field
  \<^verbatim>\<open>start_address\<close>, with the message that quotes the string form of the range and
  lists, as a Python list of strings, the string forms of all such addresses in query
  order; if there is no such address, it returns without failing.
\<close>
theorem range_check_outcome:
  assumes "\<not> raises (range_includes_address_try str_ip rg s)"
  shows "((\<exists>a \<in> set (ipaddresses s). vrf a = vrf rg \<and>
              start_address rg \<le> address a \<and> address a \<le> end_address rg) \<longrightarrow>
            fst (CheckRangeDoesNotIncludeAddress_validate str_ip str_rg rg inst s) =
              Inl (ValidationError ''start_address''
                     (''Range '' @ [CHR 0x27] @ str_rg rg @ [CHR 0x27]
                        @ '' includes existing addresses: ''
                        @ repr_list (map str_ip (filter (\<lambda>a. conflicting a rg) (ipaddresses s)))))) \<and>
         (\<not> (\<exists>a \<in> set (ipaddresses s). vrf a = vrf rg \<and>
              start_address rg \<le> address a \<and> address a \<le> end_address rg) \<longrightarrow>
            fst (CheckRangeDoesNotIncludeAddress_validate str_ip str_rg rg inst s) = Inr ())"
proof (cases "filter (\<lambda>a. conflicting a rg) (ipaddresses s)")
  case Nil
  then have "\<not> (\<exists>a \<in> set (ipaddresses s). vrf a = vrf rg \<and>
              start_address rg \<le> address a \<and> address a \<le> end_address rg)"
    using filter_empty_conflicting_addresses [of rg "ipaddresses s"] by blast
  moreover have "fst (CheckRangeDoesNotIncludeAddress_validate str_ip str_rg rg inst s) = Inr ()"
    using Nil by (rule range_validate_no_conflict)
  ultimately show ?thesis
    by blast
next
  case (Cons a as)
  then have "filter (\<lambda>a. conflicting a rg) (ipaddresses s) \<noteq> []"
    by simp
  then have "\<exists>a \<in> set (ipaddresses s). vrf a = vrf rg \<and>
              start_address rg \<le> address a \<and> address a \<le> end_address rg"
    using filter_empty_conflicting_addresses [of rg "ipaddresses s"] by blast
  moreover have "fst (CheckRangeDoesNotIncludeAddress_validate str_ip str_rg rg inst s) =
      Inl (ValidationError ''start_address''
             (''Range '' @ [CHR 0x27] @ str_rg rg @ [CHR 0x27]
                @ '' includes existing addresses: ''
                @ repr_list (map str_ip (filter (\<lambda>a. conflicting a rg) (ipaddresses s)))))"
    using range_validate_not_raised [OF assms Cons, of str_rg inst] Cons by simp
  ultimately show ?thesis
    by blast
qed

theorem range_check_outcome_witness:
  "\<not> raises (range_includes_address_try sample_str_ip (span 1 1 10) (sample_store no_fault)) \<and>
   filter (\<lambda>a. conflicting a (span 1 1 10)) (ipaddresses (sample_store no_fault)) =
     [host 1 5, host 1 7] \<and>
   fst (CheckRangeDoesNotIncludeAddress_validate sample_str_ip sample_str_rg (span 1 1 10) ()
          (sample_store no_fault)) =
     Inl (ValidationError ''start_address''
            (''Range '' @ [CHR 0x27] @ ''10.0.0.1-10.0.0.10'' @ [CHR 0x27]
               @ '' includes existing addresses: ['' @ [CHR 0x27] @ ''10.0.0.5'' @ [CHR 0x27]
               @ '', '' @ [CHR 0x27] @ ''10.0.0.7'' @ [CHR 0x27] @ '']'')) \<and>
   \<not> raises (range_includes_address_try sample_str_ip (span 1 61 70) (sample_store no_fault)) \<and>
   fst (CheckRangeDoesNotIncludeAddress_validate sample_str_ip sample_str_rg (span 1 61 70) ()
          (sample_store no_fault)) = Inr ()"
proof -
  have n1: "\<not> raises (range_includes_address_try sample_str_ip (span 1 1 10)
                (sample_store no_fault))"
    by (simp add: raises_def lookup_defs sample_defs)
  have n2: "\<not> raises (range_includes_address_try sample_str_ip (span 1 61 70)
                (sample_store no_fault))"
    by (simp add: raises_def lookup_defs sample_defs)
  have f1: "filter (\<lambda>a. conflicting a (span 1 1 10)) (ipaddresses (sample_store no_fault)) =
     [host 1 5, host 1 7]"
    by (simp add: conflicting_def sample_defs)
  have e1: "\<exists>a \<in> set (ipaddresses (sample_store no_fault)). vrf a = vrf (span 1 1 10) \<and>
       start_address (span 1 1 10) \<le> address a \<and> address a \<le> end_address (span 1 1 10)"
    by (simp add: sample_defs)
  have e2: "\<not> (\<exists>a \<in> set (ipaddresses (sample_store no_fault)). vrf a = vrf (span 1 61 70) \<and>
       start_address (span 1 61 70) \<le> address a \<and> address a \<le> end_address (span 1 61 70))"
    by (simp add: sample_defs)
  have s: "sample_str_rg (span 1 1 10) = ''10.0.0.1-10.0.0.10''"
    "map sample_str_ip [host 1 5, host 1 7] = [''10.0.0.5'', ''10.0.0.7'']"
    by (simp_all add: str_defs sample_defs)
  from range_check_outcome [OF n1, of sample_str_rg "()"] e1 f1 s sample_repr
  have "fst (CheckRangeDoesNotIncludeAddress_validate sample_str_ip sample_str_rg (span 1 1 10) ()
          (sample_store no_fault)) =
     Inl (ValidationError ''start_address''
            (''Range '' @ [CHR 0x27] @ ''10.0.0.1-10.0.0.10'' @ [CHR 0x27]
               @ '' includes existing addresses: ['' @ [CHR 0x27] @ ''10.0.0.5'' @ [CHR 0x27]
               @ '', '' @ [CHR 0x27] @ ''10.0.0.7'' @ [CHR 0x27] @ '']''))"
    by auto
  moreover from range_check_outcome [OF n2, of sample_str_rg "()"] e2
  have "fst (CheckRangeDoesNotIncludeAddress_validate sample_str_ip sample_str_rg (span 1 61 70) ()
          (sample_store no_fault)) = Inr ()"
    by blast
  ultimately show ?thesis
    using n1 n2 f1 by blast
qed

text \<open>
  As first stated, without the condition on the lookup, the claim is false: the store
  below holds an address inside the candidate range, in its \<^verbatim>\<open>vrf\<close>, the second query
  (the iteration) raises, and the validator passes.
\<close>

theorem range_check_backend_error_counterexample:
  "host 1 5 \<in> set (ipaddresses (sample_store (fault_at 1))) \<and>
   vrf (host 1 5) = vrf (span 1 1 10) \<and>
   start_address (span 1 1 10) \<le> address (host 1 5) \<and>
   address (host 1 5) \<le> end_address (span 1 1 10) \<and>
   fst (CheckRangeDoesNotIncludeAddress_validate sample_str_ip sample_str_rg (span 1 1 10) ()
          (sample_store (fault_at 1))) = Inr ()"
  by (simp add: CheckRangeDoesNotIncludeAddress_validate_def lookup_defs sample_defs)

subsection \<open>C3: an exception during the lookup is a pass\<close>

text \<open>
  Claim C3. If the body of the \<^verbatim>\<open>try\<close> block raises, in \<^verbatim>\<open>address_in_range\<close> or in
  \<^verbatim>\<open>range_includes_address\<close>, the lookup returns \<open>None\<close> and the validator returns
  without a failure, as it does when nothing conflicts. The validators' result type
  holds a validation error or nothing: no other exception leaves them.
\<close>
theorem lookup_error_passes:
  "(raises (address_in_range_try ip s) \<longrightarrow>
      fst (address_in_range ip s) = None \<and>
      fst (CheckAddressNotInRange_validate str_ip str_rg ip inst s) = Inr ()) \<and>
   (raises (range_includes_address_try str_ip rg s) \<longrightarrow>
      fst (range_includes_address str_ip rg s) = None \<and>
      fst (CheckRangeDoesNotIncludeAddress_validate str_ip str_rg rg inst' s) = Inr ())"
  by (simp add: address_validate_eq range_validate_eq address_in_range_raised
      range_includes_address_raised)

theorem lookup_error_passes_witness:
  "raises (address_in_range_try (host 1 15) (sample_store (fault_at 0))) \<and>
   fst (CheckAddressNotInRange_validate sample_str_ip sample_str_rg (host 1 15) ()
          (sample_store (fault_at 0))) = Inr () \<and>
   raises (range_includes_address_try sample_str_ip (span 1 1 10) (sample_store (fault_at 1))) \<and>
   fst (CheckRangeDoesNotIncludeAddress_validate sample_str_ip sample_str_rg (span 1 1 10) ()
          (sample_store (fault_at 1))) = Inr ()"
proof -
  have a: "raises (address_in_range_try (host 1 15) (sample_store (fault_at 0)))"
    by (simp add: raises_def lookup_defs sample_defs)
  have r: "raises (range_includes_address_try sample_str_ip (span 1 1 10)
              (sample_store (fault_at 1)))"
    by (simp add: raises_def lookup_defs sample_defs)
  from a r
    lookup_error_passes [of "host 1 15" "sample_store (fault_at 0)" sample_str_ip sample_str_rg
      "()" "span 1 1 10" "()"]
    lookup_error_passes [of "host 1 15" "sample_store (fault_at 1)" sample_str_ip sample_str_rg
      "()" "span 1 1 10" "()"]
  show ?thesis by blast
qed

subsection \<open>C4: both bounds are inclusive\<close>

text \<open>
  Claim C4, amended. For an address and a range in the same \<^verbatim>\<open>vrf\<close>, with the range's
  start at most its end and a lookup that raises no exception: when the address is the
  range's start or its end and the other record is stored, the validator of the
  candidate fails, for the field \<^verbatim>\<open>address\<close> (address check) or \<^verbatim>\<open>start_address\<close>
  (range check). An address one below the start or one above the end is no conflict:
  the outcome is the same with and without the other record in the store, and with it
  as the only stored record the validator passes.
\<close>
theorem inclusive_bounds:
  "(r \<in> set (ipranges s) \<and> vrf ip = vrf r \<and> start_address r \<le> end_address r \<and>
      (address ip = start_address r \<or> address ip = end_address r) \<and>
      \<not> raises (address_in_range_try ip s) \<longrightarrow>
      (\<exists>m. fst (CheckAddressNotInRange_validate str_ip str_rg ip inst s) =
            Inl (ValidationError ''address'' m))) \<and>
   (address ip = start_address r - 1 \<or> address ip = end_address r + 1 \<longrightarrow>
      fst (CheckAddressNotInRange_validate str_ip str_rg ip inst (s\<lparr>ipranges := xs @ r # ys\<rparr>)) =
        fst (CheckAddressNotInRange_validate str_ip str_rg ip inst (s\<lparr>ipranges := xs @ ys\<rparr>)) \<and>
      fst (CheckAddressNotInRange_validate str_ip str_rg ip inst (s\<lparr>ipranges := [r]\<rparr>)) = Inr ()) \<and>
   (a \<in> set (ipaddresses s) \<and> vrf a = vrf rg \<and> start_address rg \<le> end_address rg \<and>
      (address a = start_address rg \<or> address a = end_address rg) \<and>
      \<not> raises (range_includes_address_try str_ip rg s) \<longrightarrow>
      (\<exists>m. fst (CheckRangeDoesNotIncludeAddress_validate str_ip str_rg rg inst s) =
            Inl (ValidationError ''start_address'' m))) \<and>
   (address a = start_address rg - 1 \<or> address a = end_address rg + 1 \<longrightarrow>
      fst (CheckRangeDoesNotIncludeAddress_validate str_ip str_rg rg inst
             (s\<lparr>ipaddresses := us @ a # vs\<rparr>)) =
        fst (CheckRangeDoesNotIncludeAddress_validate str_ip str_rg rg inst
               (s\<lparr>ipaddresses := us @ vs\<rparr>)) \<and>
      fst (CheckRangeDoesNotIncludeAddress_validate str_ip str_rg rg inst
             (s\<lparr>ipaddresses := [a]\<rparr>)) = Inr ())"
proof (intro conjI impI)
  assume h: "r \<in> set (ipranges s) \<and> vrf ip = vrf r \<and> start_address r \<le> end_address r \<and>
      (address ip = start_address r \<or> address ip = end_address r) \<and>
      \<not> raises (address_in_range_try ip s)"
  then have "conflicting ip r"
    by (simp add: conflicting_bound)
  with h show "\<exists>m. fst (CheckAddressNotInRange_validate str_ip str_rg ip inst s) =
            Inl (ValidationError ''address'' m)"
    using address_validate_conflict_fails [of r s ip str_ip str_rg inst] by blast
next
  assume "address ip = start_address r - 1 \<or> address ip = end_address r + 1"
  then have n: "\<not> conflicting ip r"
    by (rule not_conflicting_adjacent)
  from n show "fst (CheckAddressNotInRange_validate str_ip str_rg ip inst
                      (s\<lparr>ipranges := xs @ r # ys\<rparr>)) =
        fst (CheckAddressNotInRange_validate str_ip str_rg ip inst (s\<lparr>ipranges := xs @ ys\<rparr>))"
    by (rule address_validate_irrelevant_range)
  from n show "fst (CheckAddressNotInRange_validate str_ip str_rg ip inst (s\<lparr>ipranges := [r]\<rparr>))
        = Inr ()"
    by (rule address_validate_singleton)
next
  assume h: "a \<in> set (ipaddresses s) \<and> vrf a = vrf rg \<and> start_address rg \<le> end_address rg \<and>
      (address a = start_address rg \<or> address a = end_address rg) \<and>
      \<not> raises (range_includes_address_try str_ip rg s)"
  then have "conflicting a rg"
    by (simp add: conflicting_bound)
  with h show "\<exists>m. fst (CheckRangeDoesNotIncludeAddress_validate str_ip str_rg rg inst s) =
            Inl (ValidationError ''start_address'' m)"
    using range_validate_conflict_fails [of a s rg str_ip str_rg inst] by blast
next
  assume "address a = start_address rg - 1 \<or> address a = end_address rg + 1"
  then have n: "\<not> conflicting a rg"
    by (rule not_conflicting_adjacent)
  from n show "fst (CheckRangeDoesNotIncludeAddress_validate str_ip str_rg rg inst
             (s\<lparr>ipaddresses := us @ a # vs\<rparr>)) =
        fst (CheckRangeDoesNotIncludeAddress_validate str_ip str_rg rg inst
               (s\<lparr>ipaddresses := us @ vs\<rparr>))"
    by (rule range_validate_irrelevant_address)
  from n show "fst (CheckRangeDoesNotIncludeAddress_validate str_ip str_rg rg inst
             (s\<lparr>ipaddresses := [a]\<rparr>)) = Inr ()"
    by (rule range_validate_singleton)
qed

theorem inclusive_bounds_witness:
  "(\<exists>m. fst (CheckAddressNotInRange_validate sample_str_ip sample_str_rg (host 1 10) ()
            (sample_store no_fault)) = Inl (ValidationError ''address'' m)) \<and>
   (\<exists>m. fst (CheckAddressNotInRange_validate sample_str_ip sample_str_rg (host 1 20) ()
            (sample_store no_fault)) = Inl (ValidationError ''address'' m)) \<and>
   fst (CheckAddressNotInRange_validate sample_str_ip sample_str_rg (host 1 9) ()
          (sample_store no_fault\<lparr>ipranges := [span 1 10 20]\<rparr>)) = Inr () \<and>
   fst (CheckAddressNotInRange_validate sample_str_ip sample_str_rg (host 1 21) ()
          (sample_store no_fault\<lparr>ipranges := [span 1 10 20]\<rparr>)) = Inr () \<and>
   (\<exists>m. fst (CheckRangeDoesNotIncludeAddress_validate sample_str_ip sample_str_rg (span 1 5 6) ()
            (sample_store no_fault)) = Inl (ValidationError ''start_address'' m)) \<and>
   (\<exists>m. fst (CheckRangeDoesNotIncludeAddress_validate sample_str_ip sample_str_rg (span 1 1 5) ()
            (sample_store no_fault)) = Inl (ValidationError ''start_address'' m)) \<and>
   fst (CheckRangeDoesNotIncludeAddress_validate sample_str_ip sample_str_rg (span 1 6 8) ()
          (sample_store no_fault\<lparr>ipaddresses := [host 1 5]\<rparr>)) = Inr () \<and>
   fst (CheckRangeDoesNotIncludeAddress_validate sample_str_ip sample_str_rg (span 1 1 4) ()
          (sample_store no_fault\<lparr>ipaddresses := [host 1 5]\<rparr>)) = Inr ()"
proof -
  have a_start: "span 1 10 20 \<in> set (ipranges (sample_store no_fault)) \<and>
      vrf (host 1 10) = vrf (span 1 10 20) \<and>
      start_address (span 1 10 20) \<le> end_address (span 1 10 20) \<and>
      (address (host 1 10) = start_address (span 1 10 20) \<or>
       address (host 1 10) = end_address (span 1 10 20)) \<and>
      \<not> raises (address_in_range_try (host 1 10) (sample_store no_fault))"
    by (simp add: raises_def lookup_defs sample_defs)
  have a_end: "span 1 10 20 \<in> set (ipranges (sample_store no_fault)) \<and>
      vrf (host 1 20) = vrf (span 1 10 20) \<and>
      start_address (span 1 10 20) \<le> end_address (span 1 10 20) \<and>
      (address (host 1 20) = start_address (span 1 10 20) \<or>
       address (host 1 20) = end_address (span 1 10 20)) \<and>
      \<not> raises (address_in_range_try (host 1 20) (sample_store no_fault))"
    by (simp add: raises_def lookup_defs sample_defs)
  have a_below: "address (host 1 9) = start_address (span 1 10 20) - 1 \<or>
      address (host 1 9) = end_address (span 1 10 20) + 1"
    by (simp add: sample_defs)
  have a_above: "address (host 1 21) = start_address (span 1 10 20) - 1 \<or>
      address (host 1 21) = end_address (span 1 10 20) + 1"
    by (simp add: sample_defs)
  have r_start: "host 1 5 \<in> set (ipaddresses (sample_store no_fault)) \<and>
      vrf (host 1 5) = vrf (span 1 5 6) \<and>
      start_address (span 1 5 6) \<le> end_address (span 1 5 6) \<and>
      (address (host 1 5) = start_address (span 1 5 6) \<or>
       address (host 1 5) = end_address (span 1 5 6)) \<and>
      \<not> raises (range_includes_address_try sample_str_ip (span 1 5 6) (sample_store no_fault))"
    by (simp add: raises_def lookup_defs sample_defs)
  have r_end: "host 1 5 \<in> set (ipaddresses (sample_store no_fault)) \<and>
      vrf (host 1 5) = vrf (span 1 1 5) \<and>
      start_address (span 1 1 5) \<le> end_address (span 1 1 5) \<and>
      (address (host 1 5) = start_address (span 1 1 5) \<or>
       address (host 1 5) = end_address (span 1 1 5)) \<and>
      \<not> raises (range_includes_address_try sample_str_ip (span 1 1 5) (sample_store no_fault))"
    by (simp add: raises_def lookup_defs sample_defs)
  have r_below: "address (host 1 5) = start_address (span 1 6 8) - 1 \<or>
      address (host 1 5) = end_address (span 1 6 8) + 1"
    by (simp add: sample_defs)
  have r_above: "address (host 1 5) = start_address (span 1 1 4) - 1 \<or>
      address (host 1 5) = end_address (span 1 1 4) + 1"
    by (simp add: sample_defs)
  note at = inclusive_bounds [where str_ip = sample_str_ip and str_rg = sample_str_rg
      and inst = "()" and s = "sample_store no_fault" and xs = "[]" and ys = "[]"
      and us = "[]" and vs = "[]" and r = "span 1 10 20" and a = "host 1 5"]
  from at [where ip = "host 1 10" and rg = "span 1 5 6"] a_start r_start
  have c1: "\<exists>m. fst (CheckAddressNotInRange_validate sample_str_ip sample_str_rg (host 1 10) ()
            (sample_store no_fault)) = Inl (ValidationError ''address'' m)"
    and c5: "\<exists>m. fst (CheckRangeDoesNotIncludeAddress_validate sample_str_ip sample_str_rg
            (span 1 5 6) () (sample_store no_fault)) = Inl (ValidationError ''start_address'' m)"
    by blast+
  from at [where ip = "host 1 20" and rg = "span 1 1 5"] a_end r_end
  have c2: "\<exists>m. fst (CheckAddressNotInRange_validate sample_str_ip sample_str_rg (host 1 20) ()
            (sample_store no_fault)) = Inl (ValidationError ''address'' m)"
    and c6: "\<exists>m. fst (CheckRangeDoesNotIncludeAddress_validate sample_str_ip sample_str_rg
            (span 1 1 5) () (sample_store no_fault)) = Inl (ValidationError ''start_address'' m)"
    by blast+
  from at [where ip = "host 1 9" and rg = "span 1 6 8"] a_below r_below
  have c3: "fst (CheckAddressNotInRange_validate sample_str_ip sample_str_rg (host 1 9) ()
          (sample_store no_fault\<lparr>ipranges := [span 1 10 20]\<rparr>)) = Inr ()"
    and c7: "fst (CheckRangeDoesNotIncludeAddress_validate sample_str_ip sample_str_rg
          (span 1 6 8) () (sample_store no_fault\<lparr>ipaddresses := [host 1 5]\<rparr>)) = Inr ()"
    by blast+
  from at [where ip = "host 1 21" and rg = "span 1 1 4"] a_above r_above
  have c4: "fst (CheckAddressNotInRange_validate sample_str_ip sample_str_rg (host 1 21) ()
          (sample_store no_fault\<lparr>ipranges := [span 1 10 20]\<rparr>)) = Inr ()"
    and c8: "fst (CheckRangeDoesNotIncludeAddress_validate sample_str_ip sample_str_rg
          (span 1 1 4) () (sample_store no_fault\<lparr>ipaddresses := [host 1 5]\<rparr>)) = Inr ()"
    by blast+
  from c1 c2 c3 c4 c5 c6 c7 c8 show ?thesis
    by blast
qed

text \<open>
  As first stated the claim is false in two ways. A stored range whose start is above
  its end contains no address, not even its own start. And when the first query raises,
  an address on the start of a stored range passes.
\<close>

theorem inclusive_bounds_counterexample:
  "vrf (host 1 20) = vrf (span 1 20 10) \<and>
   address (host 1 20) = start_address (span 1 20 10) \<and>
   fst (CheckAddressNotInRange_validate sample_str_ip sample_str_rg (host 1 20) ()
          (sample_store no_fault\<lparr>ipranges := [span 1 20 10]\<rparr>)) = Inr () \<and>
   span 1 10 20 \<in> set (ipranges (sample_store (fault_at 0))) \<and>
   vrf (host 1 10) = vrf (span 1 10 20) \<and>
   address (host 1 10) = start_address (span 1 10 20) \<and>
   fst (CheckAddressNotInRange_validate sample_str_ip sample_str_rg (host 1 10) ()
          (sample_store (fault_at 0))) = Inr ()"
  by (simp add: CheckAddressNotInRange_validate_def lookup_defs sample_defs)

subsection \<open>C5: records in different routing contexts never conflict\<close>

text \<open>
  Claim C5. A record whose \<^verbatim>\<open>vrf\<close> differs from the candidate's has no effect on the
  outcome, whatever its numeric values: the outcome is the same with and without it in
  the store, and with it as the only stored record the validator passes. When every
  stored record differs in \<^verbatim>\<open>vrf\<close> from the candidate, the validator passes. When a
  validator fails, some stored record has the candidate's \<^verbatim>\<open>vrf\<close> and conflicts
  numerically. This holds for both validators.
\<close>
theorem scope_isolation:
  "(vrf r \<noteq> vrf ip \<longrightarrow>
      fst (CheckAddressNotInRange_validate str_ip str_rg ip inst (s\<lparr>ipranges := xs @ r # ys\<rparr>)) =
        fst (CheckAddressNotInRange_validate str_ip str_rg ip inst (s\<lparr>ipranges := xs @ ys\<rparr>)) \<and>
      fst (CheckAddressNotInRange_validate str_ip str_rg ip inst (s\<lparr>ipranges := [r]\<rparr>)) = Inr ()) \<and>
   ((\<forall>r \<in> set (ipranges s). vrf r \<noteq> vrf ip) \<longrightarrow>
      fst (CheckAddressNotInRange_validate str_ip str_rg ip inst s) = Inr ()) \<and>
   (fst (CheckAddressNotInRange_validate str_ip str_rg ip inst s) = Inl err \<longrightarrow>
      (\<exists>r \<in> set (ipranges s). vrf r = vrf ip \<and>
          start_address r \<le> address ip \<and> address ip \<le> end_address r)) \<and>
   (vrf a \<noteq> vrf rg \<longrightarrow>
      fst (CheckRangeDoesNotIncludeAddress_validate str_ip str_rg rg inst
             (s\<lparr>ipaddresses := us @ a # vs\<rparr>)) =
        fst (CheckRangeDoesNotIncludeAddress_validate str_ip str_rg rg inst
               (s\<lparr>ipaddresses := us @ vs\<rparr>)) \<and>
      fst (CheckRangeDoesNotIncludeAddress_validate str_ip str_rg rg inst
             (s\<lparr>ipaddresses := [a]\<rparr>)) = Inr ()) \<and>
   ((\<forall>a \<in> set (ipaddresses s). vrf a \<noteq> vrf rg) \<longrightarrow>
      fst (CheckRangeDoesNotIncludeAddress_validate str_ip str_rg rg inst s) = Inr ()) \<and>
   (fst (CheckRangeDoesNotIncludeAddress_validate str_ip str_rg rg inst s) = Inl err' \<longrightarrow>
      (\<exists>a \<in> set (ipaddresses s). vrf a = vrf rg \<and>
          start_address rg \<le> address a \<and> address a \<le> end_address rg))"
proof (intro conjI impI)
  assume "vrf r \<noteq> vrf ip"
  then have n: "\<not> conflicting ip r"
    by (rule not_conflicting_other_vrf)
  from n show "fst (CheckAddressNotInRange_validate str_ip str_rg ip inst
                      (s\<lparr>ipranges := xs @ r # ys\<rparr>)) =
        fst (CheckAddressNotInRange_validate str_ip str_rg ip inst (s\<lparr>ipranges := xs @ ys\<rparr>))"
    by (rule address_validate_irrelevant_range)
  from n show "fst (CheckAddressNotInRange_validate str_ip str_rg ip inst (s\<lparr>ipranges := [r]\<rparr>))
        = Inr ()"
    by (rule address_validate_singleton)
next
  assume "\<forall>r \<in> set (ipranges s). vrf r \<noteq> vrf ip"
  then have "filter (conflicting ip) (ipranges s) = []"
    by (auto simp: filter_empty_conv conflicting_def)
  then show "fst (CheckAddressNotInRange_validate str_ip str_rg ip inst s) = Inr ()"
    by (rule address_validate_no_conflict)
next
  assume "fst (CheckAddressNotInRange_validate str_ip str_rg ip inst s) = Inl err"
  from address_validate_fails [OF this]
  obtain rg rest where "filter (conflicting ip) (ipranges s) = rg # rest"
    by blast
  then have "filter (conflicting ip) (ipranges s) \<noteq> []"
    by simp
  then show "\<exists>r \<in> set (ipranges s). vrf r = vrf ip \<and>
          start_address r \<le> address ip \<and> address ip \<le> end_address r"
    using filter_empty_conflicting_ranges [of ip "ipranges s"] by blast
next
  assume "vrf a \<noteq> vrf rg"
  then have n: "\<not> conflicting a rg"
    by (auto simp: conflicting_def)
  from n show "fst (CheckRangeDoesNotIncludeAddress_validate str_ip str_rg rg inst
             (s\<lparr>ipaddresses := us @ a # vs\<rparr>)) =
        fst (CheckRangeDoesNotIncludeAddress_validate str_ip str_rg rg inst
               (s\<lparr>ipaddresses := us @ vs\<rparr>))"
    by (rule range_validate_irrelevant_address)
  from n show "fst (CheckRangeDoesNotIncludeAddress_validate str_ip str_rg rg inst
             (s\<lparr>ipaddresses := [a]\<rparr>)) = Inr ()"
    by (rule range_validate_singleton)
next
  assume "\<forall>a \<in> set (ipaddresses s). vrf a \<noteq> vrf rg"
  then have "filter (\<lambda>a. conflicting a rg) (ipaddresses s) = []"
    by (auto simp: filter_empty_conv conflicting_def)
  then show "fst (CheckRangeDoesNotIncludeAddress_validate str_ip str_rg rg inst s) = Inr ()"
    by (rule range_validate_no_conflict)
next
  assume "fst (CheckRangeDoesNotIncludeAddress_validate str_ip str_rg rg inst s) = Inl err'"
  from range_validate_fails [OF this]
  have "filter (\<lambda>a. conflicting a rg) (ipaddresses s) \<noteq> []"
    by (rule conjunct1)
  then show "\<exists>a \<in> set (ipaddresses s). vrf a = vrf rg \<and>
          start_address rg \<le> address a \<and> address a \<le> end_address rg"
    using filter_empty_conflicting_addresses [of rg "ipaddresses s"] by blast
qed

theorem scope_isolation_witness:
  "start_address (span 1 10 20) \<le> address (host 2 15) \<and>
   address (host 2 15) \<le> end_address (span 1 10 20) \<and>
   fst (CheckAddressNotInRange_validate sample_str_ip sample_str_rg (host 2 15) ()
          (sample_store no_fault\<lparr>ipranges := [span 1 10 20]\<rparr>)) = Inr () \<and>
   fst (CheckAddressNotInRange_validate sample_str_ip sample_str_rg (host 3 15) ()
          (sample_store no_fault)) = Inr () \<and>
   (\<exists>r \<in> set (ipranges (sample_store no_fault)). vrf r = vrf (host 1 15) \<and>
       start_address r \<le> address (host 1 15) \<and> address (host 1 15) \<le> end_address r) \<and>
   start_address (span 2 1 8) \<le> address (host 1 5) \<and>
   address (host 1 5) \<le> end_address (span 2 1 8) \<and>
   fst (CheckRangeDoesNotIncludeAddress_validate sample_str_ip sample_str_rg (span 2 1 8) ()
          (sample_store no_fault\<lparr>ipaddresses := [host 1 5]\<rparr>)) = Inr () \<and>
   fst (CheckRangeDoesNotIncludeAddress_validate sample_str_ip sample_str_rg (span 3 1 100) ()
          (sample_store no_fault)) = Inr () \<and>
   (\<exists>a \<in> set (ipaddresses (sample_store no_fault)). vrf a = vrf (span 1 1 10) \<and>
       start_address (span 1 1 10) \<le> address a \<and> address a \<le> end_address (span 1 1 10))"
proof -
  have overlap: "start_address (span 1 10 20) \<le> address (host 2 15) \<and>
      address (host 2 15) \<le> end_address (span 1 10 20) \<and>
      start_address (span 2 1 8) \<le> address (host 1 5) \<and>
      address (host 1 5) \<le> end_address (span 2 1 8)"
    by (simp add: sample_defs)
  have other_a: "vrf (span 1 10 20) \<noteq> vrf (host 2 15)"
    by (simp add: sample_defs)
  have other_r: "vrf (host 1 5) \<noteq> vrf (span 2 1 8)"
    by (simp add: sample_defs)
  have all_a: "\<forall>r \<in> set (ipranges (sample_store no_fault)). vrf r \<noteq> vrf (host 3 15)"
    by (simp add: sample_defs)
  have all_r: "\<forall>a \<in> set (ipaddresses (sample_store no_fault)). vrf a \<noteq> vrf (span 3 1 100)"
    by (simp add: sample_defs)
  have fail_a: "fst (CheckAddressNotInRange_validate sample_str_ip sample_str_rg (host 1 15) ()
      (sample_store no_fault)) =
      Inl (ValidationError ''address''
             (''IP address '' @ [CHR 0x27] @ sample_str_ip (host 1 15) @ [CHR 0x27]
                @ '' used in range '' @ [CHR 0x27] @ sample_str_rg (span 1 10 20) @ [CHR 0x27]))"
    by (simp add: CheckAddressNotInRange_validate_def fail_def lookup_defs sample_defs)
  have fail_r: "fst (CheckRangeDoesNotIncludeAddress_validate sample_str_ip sample_str_rg
      (span 1 1 10) () (sample_store no_fault)) =
      Inl (ValidationError ''start_address''
             (''Range '' @ [CHR 0x27] @ sample_str_rg (span 1 1 10) @ [CHR 0x27]
                @ '' includes existing addresses: ''
                @ repr_list [sample_str_ip (host 1 5), sample_str_ip (host 1 7)]))"
    by (simp add: CheckRangeDoesNotIncludeAddress_validate_def fail_def lookup_defs sample_defs)
  note at = scope_isolation [where str_ip = sample_str_ip and str_rg = sample_str_rg
      and inst = "()" and xs = "[]" and ys = "[]" and us = "[]" and vs = "[]"
      and s = "sample_store no_fault"]
  from at [where r = "span 1 10 20" and ip = "host 2 15" and a = "host 1 5" and rg = "span 2 1 8"]
    other_a other_r
  have c1: "fst (CheckAddressNotInRange_validate sample_str_ip sample_str_rg (host 2 15) ()
          (sample_store no_fault\<lparr>ipranges := [span 1 10 20]\<rparr>)) = Inr ()"
    and c4: "fst (CheckRangeDoesNotIncludeAddress_validate sample_str_ip sample_str_rg
          (span 2 1 8) () (sample_store no_fault\<lparr>ipaddresses := [host 1 5]\<rparr>)) = Inr ()"
    by blast+
  from at [where ip = "host 3 15" and rg = "span 3 1 100"] all_a all_r
  have c2: "fst (CheckAddressNotInRange_validate sample_str_ip sample_str_rg (host 3 15) ()
          (sample_store no_fault)) = Inr ()"
    and c5: "fst (CheckRangeDoesNotIncludeAddress_validate sample_str_ip sample_str_rg
          (span 3 1 100) () (sample_store no_fault)) = Inr ()"
    by blast+
  from at [where ip = "host 1 15" and rg = "span 1 1 10"] fail_a fail_r
  have c3: "\<exists>r \<in> set (ipranges (sample_store no_fault)). vrf r = vrf (host 1 15) \<and>
       start_address r \<le> address (host 1 15) \<and> address (host 1 15) \<le> end_address r"
    and c6: "\<exists>a \<in> set (ipaddresses (sample_store no_fault)). vrf a = vrf (span 1 1 10) \<and>
       start_address (span 1 1 10) \<le> address a \<and> address a \<le> end_address (span 1 1 10)"
    by blast+
  from overlap c1 c2 c3 c4 c5 c6 show ?thesis
    by blast
qed

subsection \<open>C6: the first conflicting range, all conflicting addresses\<close>

text \<open>
  Claim C6. Whenever the address check fails, its message names the first stored range,
  in query order, that conflicts with the candidate, and no other range. Whenever the
  range check fails, its message lists the string forms of all stored addresses that
  conflict with the candidate. When two or more records conflict and the lookup does not
  raise, the validators do fail in this way.
\<close>
theorem first_range_all_addresses:
  "(fst (CheckAddressNotInRange_validate str_ip str_rg ip inst s) = Inl err \<longrightarrow>
      (\<exists>rg. find (conflicting ip) (ipranges s) = Some rg \<and>
         err = ValidationError ''address''
                 (''IP address '' @ [CHR 0x27] @ str_ip ip @ [CHR 0x27] @ '' used in range ''
                    @ [CHR 0x27] @ str_rg rg @ [CHR 0x27]))) \<and>
   (fst (CheckRangeDoesNotIncludeAddress_validate str_ip str_rg rg inst s) = Inl err' \<longrightarrow>
      err' = ValidationError ''start_address''
               (''Range '' @ [CHR 0x27] @ str_rg rg @ [CHR 0x27]
                  @ '' includes existing addresses: ''
                  @ repr_list (map str_ip (filter (\<lambda>a. conflicting a rg) (ipaddresses s))))) \<and>
   (\<not> raises (address_in_range_try ip s) \<and>
      filter (conflicting ip) (ipranges s) = r1 # r2 # rest \<longrightarrow>
      fst (CheckAddressNotInRange_validate str_ip str_rg ip inst s) =
        Inl (ValidationError ''address''
               (''IP address '' @ [CHR 0x27] @ str_ip ip @ [CHR 0x27] @ '' used in range ''
                  @ [CHR 0x27] @ str_rg r1 @ [CHR 0x27]))) \<and>
   (\<not> raises (range_includes_address_try str_ip rg s) \<and>
      filter (\<lambda>a. conflicting a rg) (ipaddresses s) = a1 # a2 # others \<longrightarrow>
      fst (CheckRangeDoesNotIncludeAddress_validate str_ip str_rg rg inst s) =
        Inl (ValidationError ''start_address''
               (''Range '' @ [CHR 0x27] @ str_rg rg @ [CHR 0x27]
                  @ '' includes existing addresses: ''
                  @ repr_list (str_ip a1 # str_ip a2 # map str_ip others))))"
proof (intro conjI impI)
  assume "fst (CheckAddressNotInRange_validate str_ip str_rg ip inst s) = Inl err"
  from address_validate_fails [OF this]
  obtain rg rest where f: "filter (conflicting ip) (ipranges s) = rg # rest"
    and e: "err = ValidationError ''address''
                 (''IP address '' @ [CHR 0x27] @ str_ip ip @ [CHR 0x27] @ '' used in range ''
                    @ [CHR 0x27] @ str_rg rg @ [CHR 0x27])"
    by blast
  from f have "find (conflicting ip) (ipranges s) = Some rg"
    by (simp add: find_filter)
  with e show "\<exists>rg. find (conflicting ip) (ipranges s) = Some rg \<and>
         err = ValidationError ''address''
                 (''IP address '' @ [CHR 0x27] @ str_ip ip @ [CHR 0x27] @ '' used in range ''
                    @ [CHR 0x27] @ str_rg rg @ [CHR 0x27])"
    by blast
next
  assume "fst (CheckRangeDoesNotIncludeAddress_validate str_ip str_rg rg inst s) = Inl err'"
  from range_validate_fails [OF this]
  show "err' = ValidationError ''start_address''
               (''Range '' @ [CHR 0x27] @ str_rg rg @ [CHR 0x27]
                  @ '' includes existing addresses: ''
                  @ repr_list (map str_ip (filter (\<lambda>a. conflicting a rg) (ipaddresses s))))"
    by (rule conjunct2)
next
  assume "\<not> raises (address_in_range_try ip s) \<and>
      filter (conflicting ip) (ipranges s) = r1 # r2 # rest"
  then show "fst (CheckAddressNotInRange_validate str_ip str_rg ip inst s) =
        Inl (ValidationError ''address''
               (''IP address '' @ [CHR 0x27] @ str_ip ip @ [CHR 0x27] @ '' used in range ''
                  @ [CHR 0x27] @ str_rg r1 @ [CHR 0x27]))"
    by (simp add: address_validate_not_raised [of ip s r1 "r2 # rest" str_ip str_rg inst])
next
  assume "\<not> raises (range_includes_address_try str_ip rg s) \<and>
      filter (\<lambda>a. conflicting a rg) (ipaddresses s) = a1 # a2 # others"
  then show "fst (CheckRangeDoesNotIncludeAddress_validate str_ip str_rg rg inst s) =
        Inl (ValidationError ''start_address''
               (''Range '' @ [CHR 0x27] @ str_rg rg @ [CHR 0x27]
                  @ '' includes existing addresses: ''
                  @ repr_list (str_ip a1 # str_ip a2 # map str_ip others)))"
    by (simp add: range_validate_not_raised [of str_ip rg s a1 "a2 # others" str_rg inst])
qed

theorem first_range_all_addresses_witness:
  "filter (conflicting (host 1 15)) (ipranges (sample_store no_fault)) =
     [span 1 10 20, span 1 15 30] \<and>
   find (conflicting (host 1 15)) (ipranges (sample_store no_fault)) = Some (span 1 10 20) \<and>
   fst (CheckAddressNotInRange_validate sample_str_ip sample_str_rg (host 1 15) ()
          (sample_store no_fault)) =
     Inl (ValidationError ''address''
            (''IP address '' @ [CHR 0x27] @ ''10.0.0.15'' @ [CHR 0x27] @ '' used in range ''
               @ [CHR 0x27] @ ''10.0.0.10-10.0.0.20'' @ [CHR 0x27])) \<and>
   filter (\<lambda>a. conflicting a (span 1 1 10)) (ipaddresses (sample_store no_fault)) =
     [host 1 5, host 1 7] \<and>
   fst (CheckRangeDoesNotIncludeAddress_validate sample_str_ip sample_str_rg (span 1 1 10) ()
          (sample_store no_fault)) =
     Inl (ValidationError ''start_address''
            (''Range '' @ [CHR 0x27] @ ''10.0.0.1-10.0.0.10'' @ [CHR 0x27]
               @ '' includes existing addresses: ['' @ [CHR 0x27] @ ''10.0.0.5'' @ [CHR 0x27]
               @ '', '' @ [CHR 0x27] @ ''10.0.0.7'' @ [CHR 0x27] @ '']''))"
proof -
  have na: "\<not> raises (address_in_range_try (host 1 15) (sample_store no_fault))"
    by (simp add: raises_def lookup_defs sample_defs)
  have nr: "\<not> raises (range_includes_address_try sample_str_ip (span 1 1 10)
                (sample_store no_fault))"
    by (simp add: raises_def lookup_defs sample_defs)
  have fa: "filter (conflicting (host 1 15)) (ipranges (sample_store no_fault)) =
      span 1 10 20 # span 1 15 30 # []"
    by (simp add: conflicting_def sample_defs)
  have fr: "filter (\<lambda>a. conflicting a (span 1 1 10)) (ipaddresses (sample_store no_fault)) =
      host 1 5 # host 1 7 # []"
    by (simp add: conflicting_def sample_defs)
  have strs: "sample_str_ip (host 1 15) = ''10.0.0.15''"
    "sample_str_rg (span 1 10 20) = ''10.0.0.10-10.0.0.20''"
    "sample_str_rg (span 1 1 10) = ''10.0.0.1-10.0.0.10''"
    "sample_str_ip (host 1 5) = ''10.0.0.5''"
    "sample_str_ip (host 1 7) = ''10.0.0.7''"
    by (simp_all add: str_defs sample_defs)
  note at = first_range_all_addresses [where str_ip = sample_str_ip and str_rg = sample_str_rg
      and inst = "()" and s = "sample_store no_fault" and ip = "host 1 15" and rg = "span 1 1 10"
      and ?r1.0 = "span 1 10 20" and ?r2.0 = "span 1 15 30" and rest = "[]"
      and ?a1.0 = "host 1 5" and ?a2.0 = "host 1 7" and others = "[]"]
  from at na fa
  have va: "fst (CheckAddressNotInRange_validate sample_str_ip sample_str_rg (host 1 15) ()
      (sample_store no_fault)) =
      Inl (ValidationError ''address''
             (''IP address '' @ [CHR 0x27] @ sample_str_ip (host 1 15) @ [CHR 0x27]
                @ '' used in range '' @ [CHR 0x27] @ sample_str_rg (span 1 10 20) @ [CHR 0x27]))"
    by blast
  from at nr fr
  have vr: "fst (CheckRangeDoesNotIncludeAddress_validate sample_str_ip sample_str_rg
      (span 1 1 10) () (sample_store no_fault)) =
      Inl (ValidationError ''start_address''
             (''Range '' @ [CHR 0x27] @ sample_str_rg (span 1 1 10) @ [CHR 0x27]
                @ '' includes existing addresses: ''
                @ repr_list (sample_str_ip (host 1 5) # sample_str_ip (host 1 7)
                    # map sample_str_ip [])))"
    by blast
  from at [where err = "ValidationError ''address''
             (''IP address '' @ [CHR 0x27] @ sample_str_ip (host 1 15) @ [CHR 0x27]
                @ '' used in range '' @ [CHR 0x27] @ sample_str_rg (span 1 10 20) @ [CHR 0x27])"] va
  obtain rg where fnd: "find (conflicting (host 1 15)) (ipranges (sample_store no_fault)) = Some rg"
    by blast
  from fnd fa have fnd': "find (conflicting (host 1 15)) (ipranges (sample_store no_fault)) =
      Some (span 1 10 20)"
    by (simp add: find_filter)
  let ?listed = "ValidationError ''start_address''
             (''Range '' @ [CHR 0x27] @ sample_str_rg (span 1 1 10) @ [CHR 0x27]
                @ '' includes existing addresses: ''
                @ repr_list (sample_str_ip (host 1 5) # sample_str_ip (host 1 7)
                    # map sample_str_ip []))"
  from at [where err' = ?listed] vr
  have all: "?listed = ValidationError ''start_address''
             (''Range '' @ [CHR 0x27] @ sample_str_rg (span 1 1 10) @ [CHR 0x27]
                @ '' includes existing addresses: ''
                @ repr_list (map sample_str_ip
                    (filter (\<lambda>a. conflicting a (span 1 1 10))
                       (ipaddresses (sample_store no_fault)))))"
    by blast
  from va strs have va': "fst (CheckAddressNotInRange_validate sample_str_ip sample_str_rg
      (host 1 15) () (sample_store no_fault)) =
     Inl (ValidationError ''address''
            (''IP address '' @ [CHR 0x27] @ ''10.0.0.15'' @ [CHR 0x27] @ '' used in range ''
               @ [CHR 0x27] @ ''10.0.0.10-10.0.0.20'' @ [CHR 0x27]))"
    by simp
  from vr strs sample_repr have vr': "fst (CheckRangeDoesNotIncludeAddress_validate sample_str_ip
      sample_str_rg (span 1 1 10) () (sample_store no_fault)) =
     Inl (ValidationError ''start_address''
            (''Range '' @ [CHR 0x27] @ ''10.0.0.1-10.0.0.10'' @ [CHR 0x27]
               @ '' includes existing addresses: ['' @ [CHR 0x27] @ ''10.0.0.5'' @ [CHR 0x27]
               @ '', '' @ [CHR 0x27] @ ''10.0.0.7'' @ [CHR 0x27] @ '']''))"
    by simp
  from fa fr fnd' va' vr' all show ?thesis
    by simp
qed

subsection \<open>C7: the validators only read\<close>

text \<open>
  Claim C7. After either \<^verbatim>\<open>validate\<close> the stored ranges and the stored addresses are
  what they were before the call, whatever the outcome.
\<close>
theorem validators_read_only:
  "ipranges (snd (CheckAddressNotInRange_validate str_ip str_rg ip inst s)) = ipranges s \<and>
   ipaddresses (snd (CheckAddressNotInRange_validate str_ip str_rg ip inst s)) = ipaddresses s \<and>
   ipranges (snd (CheckRangeDoesNotIncludeAddress_validate str_ip str_rg rg inst' s)) = ipranges s \<and>
   ipaddresses (snd (CheckRangeDoesNotIncludeAddress_validate str_ip str_rg rg inst' s)) =
     ipaddresses s"
proof -
  obtain n where "snd (address_in_range ip s) = s\<lparr>queries := n\<rparr>"
    using address_in_range_store by blast
  moreover obtain m where "snd (range_includes_address str_ip rg s) = s\<lparr>queries := m\<rparr>"
    using range_includes_address_store by blast
  ultimately show ?thesis
    by (simp add: address_validate_store range_validate_store)
qed

theorem validators_read_only_witness:
  "ipranges (snd (CheckAddressNotInRange_validate sample_str_ip sample_str_rg (host 1 15) ()
       (sample_store no_fault))) = [span 1 10 20, span 1 15 30, span 2 40 50] \<and>
   ipaddresses (snd (CheckAddressNotInRange_validate sample_str_ip sample_str_rg (host 1 15) ()
       (sample_store no_fault))) = [host 1 5, host 1 7, host 2 9, host 1 60] \<and>
   ipranges (snd (CheckRangeDoesNotIncludeAddress_validate sample_str_ip sample_str_rg
       (span 1 1 10) () (sample_store no_fault))) = [span 1 10 20, span 1 15 30, span 2 40 50] \<and>
   ipaddresses (snd (CheckRangeDoesNotIncludeAddress_validate sample_str_ip sample_str_rg
       (span 1 1 10) () (sample_store no_fault))) = [host 1 5, host 1 7, host 2 9, host 1 60]"
  using validators_read_only [of sample_str_ip sample_str_rg "host 1 15" "()"
      "sample_store no_fault" "span 1 1 10" "()"]
  by (simp add: sample_store_def)

subsection \<open>C8: the postcondition of \<^verbatim>\<open>address_in_range\<close>\<close>

text \<open>
  Claim C8. Whenever \<^verbatim>\<open>address_in_range\<close> returns a range record, that record is a
  stored range, it shares the candidate address's \<^verbatim>\<open>vrf\<close>, and its start is at most
  the candidate address, which is at most its end. The only other result is \<open>None\<close>.
\<close>
theorem address_in_range_post:
  "fst (address_in_range ip s) = Some r \<Longrightarrow>
     r \<in> set (ipranges s) \<and> vrf r = vrf ip \<and>
     start_address r \<le> address ip \<and> address ip \<le> end_address r"
proof -
  assume "fst (address_in_range ip s) = Some r"
  then obtain rest where "filter (conflicting ip) (ipranges s) = r # rest"
    using address_in_range_Some by blast
  then have "r \<in> set (filter (conflicting ip) (ipranges s))"
    by simp
  then show ?thesis
    by (simp add: conflicting_def)
qed

theorem address_in_range_post_witness:
  "fst (address_in_range (host 1 15) (sample_store no_fault)) = Some (span 1 10 20) \<and>
   span 1 10 20 \<in> set (ipranges (sample_store no_fault)) \<and>
   vrf (span 1 10 20) = vrf (host 1 15) \<and>
   start_address (span 1 10 20) \<le> address (host 1 15) \<and>
   address (host 1 15) \<le> end_address (span 1 10 20)"
proof -
  have h: "fst (address_in_range (host 1 15) (sample_store no_fault)) = Some (span 1 10 20)"
    by (simp add: lookup_defs sample_defs)
  from address_in_range_post [OF h] h show ?thesis
    by simp
qed

subsection \<open>C9: \<^verbatim>\<open>range_includes_address\<close> never returns an empty list\<close>

text \<open>
  Claim C9. The result of \<^verbatim>\<open>range_includes_address\<close> is never the empty list. When
  it is a list, the list is not empty: it is the string forms, in query order, of the
  stored addresses in the candidate range's \<^verbatim>\<open>vrf\<close> and inclusive bounds, so every
  element is the string form of such an address.
\<close>
theorem range_includes_address_post:
  "fst (range_includes_address str_ip rg s) \<noteq> Some [] \<and>
   (fst (range_includes_address str_ip rg s) = Some l \<longrightarrow>
      l \<noteq> [] \<and>
      l = map str_ip (filter (\<lambda>a. vrf a = vrf rg \<and> start_address rg \<le> address a
                                  \<and> address a \<le> end_address rg) (ipaddresses s)) \<and>
      (\<forall>x \<in> set l. \<exists>a \<in> set (ipaddresses s).
          x = str_ip a \<and> vrf a = vrf rg \<and>
          start_address rg \<le> address a \<and> address a \<le> end_address rg))"
proof -
  have nonempty: "fst (range_includes_address str_ip rg s) \<noteq> Some []"
    using range_includes_address_Some [of str_ip rg s "[]"] by auto
  have elems: "l \<noteq> [] \<and>
      l = map str_ip (filter (\<lambda>a. vrf a = vrf rg \<and> start_address rg \<le> address a
                                  \<and> address a \<le> end_address rg) (ipaddresses s)) \<and>
      (\<forall>x \<in> set l. \<exists>a \<in> set (ipaddresses s).
          x = str_ip a \<and> vrf a = vrf rg \<and>
          start_address rg \<le> address a \<and> address a \<le> end_address rg)"
    if h: "fst (range_includes_address str_ip rg s) = Some l"
  proof -
    from range_includes_address_Some [OF h]
    have ne: "filter (\<lambda>a. conflicting a rg) (ipaddresses s) \<noteq> []"
      and l: "l = map str_ip (filter (\<lambda>a. conflicting a rg) (ipaddresses s))"
      by simp_all
    from ne l have "l \<noteq> []" by simp
    moreover from l have "l = map str_ip (filter (\<lambda>a. vrf a = vrf rg \<and>
        start_address rg \<le> address a \<and> address a \<le> end_address rg) (ipaddresses s))"
      by (simp add: included_addresses_conflicting)
    moreover from l have "\<forall>x \<in> set l. \<exists>a \<in> set (ipaddresses s).
          x = str_ip a \<and> vrf a = vrf rg \<and>
          start_address rg \<le> address a \<and> address a \<le> end_address rg"
      by (auto simp: conflicting_def)
    ultimately show ?thesis by blast
  qed
  from nonempty elems show ?thesis by blast
qed

theorem range_includes_address_post_witness:
  "fst (range_includes_address sample_str_ip (span 1 1 10) (sample_store no_fault)) =
     Some [''10.0.0.5'', ''10.0.0.7''] \<and>
   fst (range_includes_address sample_str_ip (span 1 1 10) (sample_store no_fault)) \<noteq> Some [] \<and>
   [''10.0.0.5'', ''10.0.0.7''] =
     map sample_str_ip (filter (\<lambda>a. vrf a = vrf (span 1 1 10) \<and>
        start_address (span 1 1 10) \<le> address a \<and> address a \<le> end_address (span 1 1 10))
        (ipaddresses (sample_store no_fault)))"
proof -
  have h: "fst (range_includes_address sample_str_ip (span 1 1 10) (sample_store no_fault)) =
     Some [''10.0.0.5'', ''10.0.0.7'']"
    by (simp add: lookup_defs sample_defs str_defs)
  from range_includes_address_post [of sample_str_ip "span 1 1 10" "sample_store no_fault"
      "[''10.0.0.5'', ''10.0.0.7'']"] h
  show ?thesis by blast
qed

subsection \<open>C10: the second argument of \<^verbatim>\<open>validate\<close> is ignored\<close>

text \<open>
  Claim C10. For a fixed candidate and store, either \<^verbatim>\<open>validate\<close> gives the same
  outcome, message and store for any two values of its \<^verbatim>\<open>instance\<close> argument, of any
  types.
\<close>
theorem validate_ignores_instance:
  "CheckAddressNotInRange_validate str_ip str_rg ip inst1 s =
     CheckAddressNotInRange_validate str_ip str_rg ip inst2 s \<and>
   CheckRangeDoesNotIncludeAddress_validate str_ip str_rg rg inst1 s =
     CheckRangeDoesNotIncludeAddress_validate str_ip str_rg rg inst2 s"
  by (simp add: CheckAddressNotInRange_validate_def CheckRangeDoesNotIncludeAddress_validate_def)

theorem validate_ignores_instance_witness:
  "CheckAddressNotInRange_validate sample_str_ip sample_str_rg (host 1 15) (Some (host 1 15))
       (sample_store no_fault) =
     CheckAddressNotInRange_validate sample_str_ip sample_str_rg (host 1 15) ''request''
       (sample_store no_fault) \<and>
   CheckRangeDoesNotIncludeAddress_validate sample_str_ip sample_str_rg (span 1 1 10)
       (Some (host 1 15)) (sample_store no_fault) =
     CheckRangeDoesNotIncludeAddress_validate sample_str_ip sample_str_rg (span 1 1 10)
       ''request'' (sample_store no_fault)"
  using validate_ignores_instance [of sample_str_ip sample_str_rg "host 1 15" "Some (host 1 15)"
      "sample_store no_fault" "''request''" "span 1 1 10"]
  by blast

end
